theory Spec2Isabelle
  imports Complex_Main
begin

section \<open>Driver return codes and Python exceptions\<close>

text \<open>
  Every call into the vendor driver returns an integer code; \<open>ueye.IS_SUCCESS\<close> is 0.
  The source raises \<open>uEyeException(ret)\<close> through \<open>check\<close>, and Python itself raises
  \<open>NameError\<close>, \<open>IndexError\<close>, \<open>ZeroDivisionError\<close>, \<open>AttributeError\<close> and \<open>OverflowError\<close>
  in the places noted below.
\<close>

definition IS_SUCCESS :: int where
  "IS_SUCCESS = 0"

datatype error =
    uEyeException int
  | NameError
  | IndexError
  | ZeroDivisionError
  | AttributeError
  | OverflowError
  | SinkError

definition check :: "int \<Rightarrow> error + unit" where
  \<comment> \<open>Modelled from the spec: \<open>utils.check\<close> is imported by camera.py and is not part of the
      sources at hand; the spec says every driver call fails with the error carrying the code
      on a non-success return.\<close>
  "check ret = (if ret = IS_SUCCESS then Inr () else Inl (uEyeException ret))"

section \<open>Python floats\<close>

text \<open>
  A Python float is an IEEE 754 double. The finite doubles are rational numbers, and the
  result of \<open>/\<close>, \<open>*\<close> and \<open>+\<close> on floats is the exact result rounded to the nearest
  double, a tie going to the double whose last bit is even. \<open>flog2 x\<close> is the exponent of
  the power of two at or below a positive \<open>x\<close>. \<open>double x\<close> rounds \<open>x\<close> to 53 significant
  bits, or to a multiple of \<open>2 ^ -1074\<close> in the subnormal range, and is \<open>None\<close> when the
  rounded value is \<open>2 ^ 1024\<close> or beyond, where the float is infinite. The float \<open>-0.0\<close>
  has no counterpart among the rationals and is left out.
\<close>

function flog2 :: "rat \<Rightarrow> int" where
  "flog2 x =
     (if x \<le> 0 then 0
      else if x < 1 then flog2 (2 * x) - 1
      else if 2 \<le> x then flog2 (x / 2) + 1
      else 0)"
  by pat_completeness auto
termination
proof (relation "measure (\<lambda>x. if 1 \<le> x then nat \<lfloor>x\<rfloor> else nat \<lceil>1 / x\<rceil>)")
  show "wf (measure (\<lambda>x::rat. if 1 \<le> x then nat \<lfloor>x\<rfloor> else nat \<lceil>1 / x\<rceil>))"
    by simp
next
  fix x :: rat
  assume a: "\<not> x \<le> 0" "x < 1"
  show "(2 * x, x) \<in> measure (\<lambda>x. if 1 \<le> x then nat \<lfloor>x\<rfloor> else nat \<lceil>1 / x\<rceil>)"
  proof (cases "1 \<le> 2 * x")
    case True
    then have "\<lfloor>2 * x\<rfloor> = 1" using a by (simp add: floor_eq_iff)
    moreover have "1 < 1 / x" using a by simp
    then have "2 \<le> \<lceil>1 / x\<rceil>" by linarith
    ultimately show ?thesis using a True by simp
  next
    case False
    then have "2 < 1 / x" using a by (simp add: field_simps)
    have "1 / (2 * x) = (1 / x) / 2" by simp
    then have "\<lceil>1 / (2 * x)\<rceil> < \<lceil>1 / x\<rceil>"
      using \<open>2 < 1 / x\<close> by linarith
    moreover have "0 < \<lceil>1 / x\<rceil>" using \<open>2 < 1 / x\<close> by linarith
    ultimately show ?thesis using a False by simp
  qed
next
  fix x :: rat
  assume a: "\<not> x \<le> 0" "\<not> x < 1" "2 \<le> x"
  then have "\<lfloor>x / 2\<rfloor> < \<lfloor>x\<rfloor>" by linarith
  moreover have "0 < \<lfloor>x\<rfloor>" using a by linarith
  ultimately show "(x / 2, x) \<in> measure (\<lambda>x. if 1 \<le> x then nat \<lfloor>x\<rfloor> else nat \<lceil>1 / x\<rceil>)"
    using a by simp
qed

declare flog2.simps [simp del]

definition round_half_even :: "rat \<Rightarrow> int" where
  "round_half_even x =
     (let f = \<lfloor>x\<rfloor>; r = x - of_int f
      in if r < 1 / 2 then f else if 1 / 2 < r then f + 1 else if even f then f else f + 1)"

definition double :: "rat \<Rightarrow> rat option" where
  "double x =
     (if x = 0 then Some 0
      else
        let e = max (flog2 \<bar>x\<bar> - 52) (- 1074);
            r = of_int (round_half_even (x / 2 powi e)) * 2 powi e
        in if 2 powi 1024 \<le> \<bar>r\<bar> then None else Some r)"

section \<open>camera.py: the Camera class\<close>

text \<open>
  \<open>h_cam\<close> is the driver handle, \<open>None\<close> once the connection is closed; \<open>current_fps\<close>
  is the cached frame rate, \<open>None\<close> until \<open>set_fps\<close> has stored one. Frame rates and frame
  times are the rational values of the floats.
\<close>

record camera =
  h_cam :: "nat option"
  buffer_count :: nat
  current_fps :: "rat option"

definition Camera_init :: "nat \<Rightarrow> nat \<Rightarrow> camera" where
  "Camera_init device_id n = \<lparr>h_cam = Some device_id, buffer_count = n, current_fps = None\<rparr>"

text \<open>
  \<open>Camera.exit\<close>. The argument \<open>drv\<close> is the code \<open>ueye.is_ExitCamera\<close> answers with on
  this call; the driver is asked only while the handle is not \<open>None\<close>.
\<close>

definition exit :: "int \<Rightarrow> camera \<Rightarrow> camera" where
  "exit drv c =
     (let ret = (if h_cam c \<noteq> None then Some drv else None)
      in if ret = Some IS_SUCCESS then c\<lparr>h_cam := None\<rparr> else c)"

text \<open>
  The driver calls that the frame-rate methods make. \<open>is_GetFrameTimeRange\<close> answers with
  its code and the shortest and the longest frame time, \<open>is_SetFrameRate\<close> with its code
  and the frame rate it really set for the one asked, \<open>is_GetFramesPerSecond\<close> with its
  code and the measured frame rate.
\<close>

record driver =
  GetFrameTimeRange :: "int \<times> rat \<times> rat"
  SetFrameRate :: "rat \<Rightarrow> int \<times> rat"
  GetFramesPerSecond :: "int \<times> rat"

text \<open>\<open>get_fps_range\<close> returns \<open>[1/maxi, 1/mini]\<close>; a zero frame time makes the division raise.\<close>

definition get_fps_range :: "driver \<Rightarrow> error + rat \<times> rat" where
  "get_fps_range drv =
     (case GetFrameTimeRange drv of (ret, mini, maxi) \<Rightarrow>
        (case check ret of
           Inl e \<Rightarrow> Inl e
         | Inr u \<Rightarrow> if maxi = 0 \<or> mini = 0 then Inl ZeroDivisionError
                    else Inr (1 / maxi, 1 / mini)))"

text \<open>
  \<open>set_fps\<close>: the two \<open>if\<close>s in the order of the source, then the driver call; the value
  returned and the value cached are the driver's \<open>new_fps\<close>.
\<close>

definition set_fps :: "driver \<Rightarrow> camera \<Rightarrow> rat \<Rightarrow> error + rat \<times> camera" where
  "set_fps drv c fps =
     (case get_fps_range drv of
        Inl e \<Rightarrow> Inl e
      | Inr (mini, maxi) \<Rightarrow>
          let fps1 = (if fps < mini then mini else fps);
              fps2 = (if maxi < fps1 then maxi else fps1);
              (ret, new_fps) = SetFrameRate drv fps2
          in (case check ret of
                Inl e \<Rightarrow> Inl e
              | Inr u \<Rightarrow> Inr (new_fps, c\<lparr>current_fps := Some new_fps\<rparr>)))"

definition get_fps :: "driver \<Rightarrow> camera \<Rightarrow> error + rat" where
  "get_fps drv c =
     (case current_fps c of
        Some v \<Rightarrow> Inr v
      | None \<Rightarrow>
          (case GetFramesPerSecond drv of (ret, fps) \<Rightarrow>
             (case check ret of Inl e \<Rightarrow> Inl e | Inr u \<Rightarrow> Inr fps)))"

text \<open>
  Python's \<open>int\<close> of a float drops the fraction, towards zero, and raises \<open>OverflowError\<close>
  on an infinite float. \<open>get_timeout\<close> is \<open>Camera.__get_timeout\<close>,
  \<open>int(1.5*(1/fps)+1)*1000\<close>: three float operations, each rounded. An infinite
  quotient or product stays infinite through the operations that follow, so \<open>int\<close> raises
  whenever one of them overflows.
\<close>

definition py_int :: "rat \<Rightarrow> int" where
  "py_int x = (if 0 \<le> x then \<lfloor>x\<rfloor> else \<lceil>x\<rceil>)"

definition get_timeout :: "driver \<Rightarrow> camera \<Rightarrow> error + int" where
  "get_timeout drv c =
     (case get_fps drv c of
        Inl e \<Rightarrow> Inl e
      | Inr fps0 \<Rightarrow>
          let fps = (if fps0 = 0 then 1 else fps0)
          in (case double (1 / fps) of
                None \<Rightarrow> Inl OverflowError
              | Some q \<Rightarrow>
                  (case double (3 / 2 * q) of
                     None \<Rightarrow> Inl OverflowError
                   | Some p \<Rightarrow>
                       (case double (p + 1) of
                          None \<Rightarrow> Inl OverflowError
                        | Some s \<Rightarrow> Inr (py_int s * 1000)))))"

text \<open>
  The first statement of \<open>capture_image\<close> and of \<open>capture_images\<close>: the time-out given, or
  \<open>__get_timeout()\<close> when it is \<open>None\<close>.
\<close>

definition fetch_timeout :: "driver \<Rightarrow> camera \<Rightarrow> int option \<Rightarrow> error + int" where
  "fetch_timeout drv c timeout =
     (case timeout of None \<Rightarrow> get_timeout drv c | Some t \<Rightarrow> Inr t)"

text \<open>
  \<open>capture_image\<close> and \<open>capture_images\<close>. \<open>wait t i\<close> is the driver's answer to the wait
  number \<open>i\<close> made with the time-out \<open>t\<close>: its code and the buffer delivered; an image is
  stood for by its buffer. In the branch of a missed frame \<open>capture_images\<close> evaluates
  \<open>"Warning: Missed %dth frame !" % d\<close>, and no \<open>d\<close> is defined in that method or in the
  module (the loop variable is \<open>i\<close>): the lookup raises \<open>NameError\<close> before anything is
  printed or appended. The calls that start and stop the video and set the GPIO line are
  left to the driver.
\<close>

definition capture_image ::
  "driver \<Rightarrow> camera \<Rightarrow> (int \<Rightarrow> nat \<Rightarrow> int \<times> nat) \<Rightarrow> int option \<Rightarrow> error + nat option" where
  "capture_image drv c wait timeout =
     (case fetch_timeout drv c timeout of
        Inl e \<Rightarrow> Inl e
      | Inr t \<Rightarrow>
          (case wait t 0 of (ret, mem_id) \<Rightarrow>
             if ret = IS_SUCCESS then Inr (Some mem_id) else Inr None))"

fun capture_loop ::
  "(nat \<Rightarrow> int \<times> nat) \<Rightarrow> nat list \<Rightarrow> nat option list \<Rightarrow> error + nat option list" where
  "capture_loop wait [] ims = Inr ims"
| "capture_loop wait (i # is) ims =
     (case wait i of (ret, mem_id) \<Rightarrow>
        if ret = IS_SUCCESS then capture_loop wait is (ims @ [Some mem_id])
        else Inl NameError)"

definition capture_images ::
  "driver \<Rightarrow> camera \<Rightarrow> (int \<Rightarrow> nat \<Rightarrow> int \<times> nat) \<Rightarrow> int \<Rightarrow> int option \<Rightarrow>
     error + nat option list" where
  "capture_images drv c wait nmb timeout =
     (case fetch_timeout drv c timeout of
        Inl e \<Rightarrow> Inl e
      | Inr t \<Rightarrow> capture_loop (wait t) [0..<nat nmb] [])"

text \<open>
  A driver to run the methods against: frame times between 1/50 s and 1 s, a frame rate
  really set that is one percent below the one asked, and 2 frames per second measured.
\<close>

definition uEye :: driver where
  "uEye = \<lparr>GetFrameTimeRange = (IS_SUCCESS, 1 / 50, 1),
           SetFrameRate = (\<lambda>fps. (IS_SUCCESS, fps * (99 / 100))),
           GetFramesPerSecond = (IS_SUCCESS, 2)\<rparr>"

section \<open>threads.py: the acquisition workers\<close>

text \<open>
  What a worker does to the outside world is kept as a list of events, oldest first:
  the console warning of a missed frame with the counter it prints, the call of
  \<open>cam.stop_video()\<close>, an image file written by \<open>iio.imwrite\<close> (path and buffer) and a
  flush of a cube file to disk (with the value of \<open>d\<close> at the call).
\<close>

datatype event =
    Warning int
  | StopVideo
  | Write string nat
  | Flush int

record worker =
  running :: bool
  d :: int
  capt_time :: rat
  folder :: string
  base_name :: string
  file_type :: string
  max_frames :: int
  path :: string
  events :: "event list"

text \<open>
  \<open>GatherThread.__init__\<close> sets \<open>running = True\<close>, \<open>d = 0\<close> and \<open>capt_time = -1\<close>; the other
  fields are the arguments of the subclass constructors.
\<close>

definition GatherThread_init :: worker where
  "GatherThread_init =
     \<lparr>running = True, d = 0, capt_time = - 1, folder = [], base_name = [],
      file_type = [], max_frames = - 1, path = [], events = []\<rparr>"

definition stop :: "worker \<Rightarrow> worker" where
  "stop w = w\<lparr>events := events w @ [StopVideo], running := False\<rparr>"

text \<open>
  A sink is the \<open>process\<close> method of a worker class: it gets the worker and the delivered
  buffer, and returns the worker as it left it together with the exception it raised,
  if any. \<open>GatherThread.process\<close> is \<open>pass\<close>; \<open>SaveThread.process\<close> writes one file and stops.
\<close>

type_synonym sink = "worker \<Rightarrow> nat \<Rightarrow> error option \<times> worker"

definition process :: sink where
  "process w image_data = (None, w)"

definition SaveThread_process :: sink where
  "SaveThread_process w image_data =
     (None, stop (w\<lparr>events := events w @ [Write (path w) image_data]\<rparr>))"

text \<open>
  The state of the run loop: the worker, the buffers the driver has delivered and the
  buffers handed back with \<open>image_data.unlock()\<close>, both oldest first. The two lists are
  out of a sink's reach, as the driver's bookkeeping is.
\<close>

record loop =
  wk :: worker
  fetched :: "nat list"
  unlocked :: "nat list"

definition start :: "worker \<Rightarrow> loop" where
  "start w = \<lparr>wk = w, fetched = [], unlocked = []\<rparr>"

text \<open>
  \<open>GatherThread._process\<close>: the sink, then \<open>d += 1\<close>, then the unlock. An exception of the
  sink leaves the method before both.
\<close>

definition private_process :: "sink \<Rightarrow> loop \<Rightarrow> nat \<Rightarrow> (error \<times> loop) + loop" where
  "private_process snk st image_data =
     (case snk (wk st) image_data of
        (Some e, w') \<Rightarrow> Inl (e, st\<lparr>wk := w'\<rparr>)
      | (None, w') \<Rightarrow>
          Inr (st\<lparr>wk := w'\<lparr>d := d w' + 1\<rparr>, unlocked := unlocked st @ [image_data]\<rparr>))"

text \<open>
  One pass through the body of the \<open>while\<close> of \<open>GatherThread.run\<close>. The driver answers
  \<open>is_WaitForNextImage\<close> with the code \<open>ret\<close> and the buffer \<open>mem_id\<close>, and \<open>time.time()\<close>
  reads \<open>t\<close>.
\<close>

definition iteration :: "sink \<Rightarrow> loop \<Rightarrow> int \<Rightarrow> nat \<Rightarrow> rat \<Rightarrow> (error \<times> loop) + loop" where
  "iteration snk st ret mem_id t =
     (if ret = IS_SUCCESS
      then private_process snk
             (st\<lparr>wk := (wk st)\<lparr>capt_time := t\<rparr>, fetched := fetched st @ [mem_id]\<rparr>) mem_id
      else Inr (st\<lparr>wk := (wk st)\<lparr>events := events (wk st) @ [Warning (d (wk st))],
                                   d := d (wk st) + 1\<rparr>\<rparr>))"

text \<open>
  The loop runs against what its surroundings do: \<open>Wait ret mem_id t\<close> is the driver's
  answer to the wait of the next iteration, \<open>ExternalStop\<close> is a call of \<open>stop()\<close> by the
  controlling thread between two iterations. The loop has \<open>Exited\<close> when it finds
  \<open>running\<close> false, it is \<open>Raised\<close> when an exception left \<open>run\<close>, and it is \<open>Pending\<close>, still
  running, when the surroundings have nothing more to say.
\<close>

datatype input = Wait int nat rat | ExternalStop

datatype outcome = Exited loop | Raised error loop | Pending loop

fun run :: "sink \<Rightarrow> loop \<Rightarrow> input list \<Rightarrow> outcome" where
  "run snk st [] = (if running (wk st) then Pending st else Exited st)"
| "run snk st (ExternalStop # ins) = run snk (st\<lparr>wk := stop (wk st)\<rparr>) ins"
| "run snk st (Wait ret mem_id t # ins) =
     (if running (wk st)
      then (case iteration snk st ret mem_id t of
              Inl (e, st') \<Rightarrow> Raised e st'
            | Inr st' \<Rightarrow> run snk st' ins)
      else Exited st)"

definition state_of :: "outcome \<Rightarrow> loop" where
  "state_of out = (case out of Exited st \<Rightarrow> st | Raised e st \<Rightarrow> st | Pending st \<Rightarrow> st)"

text \<open>A sink whose \<open>process\<close> raises on every frame, as a failing view or file writer does.\<close>

definition failing_process :: sink where
  "failing_process w image_data = (Some SinkError, w)"


subsection \<open>MultiFrameThread\<close>


definition MultiFrameThread_process :: sink where
  "MultiFrameThread_process = process"

text \<open>
  \<open>'{:.0f}'.format(x)\<close> prints the integer nearest to the float \<open>x\<close>, a tie going to the even
  neighbour, with a minus sign for a negative \<open>x\<close>, and \<open>inf\<close> for an infinite one.
  \<open>time_str\<close> applies it to the float product \<open>self.capt_time*1000\<close>; for the initial
  \<open>capt_time = -1\<close>, an \<open>int\<close>, the product is the exact \<open>-1000\<close>, which the rounding leaves
  as it is.
\<close>

fun digits :: "nat \<Rightarrow> string" where
  "digits n =
     (if n < 10 then [''0123456789'' ! n]
      else digits (n div 10) @ [''0123456789'' ! (n mod 10)])"

declare digits.simps [simp del]

definition format_0f :: "rat \<Rightarrow> string" where
  "format_0f x = (if x < 0 then ''-'' else []) @ digits (nat \<bar>round_half_even x\<bar>)"

definition time_str :: "worker \<Rightarrow> string" where
  "time_str w =
     (case double (capt_time w * 1000) of
        None \<Rightarrow> (if capt_time w < 0 then ''-inf'' else ''inf'')
      | Some ms \<Rightarrow> format_0f ms)"

definition set_path :: "worker \<Rightarrow> worker" where
  "set_path w = w\<lparr>path := folder w @ base_name w @ time_str w @ file_type w\<rparr>"

text \<open>
  The statements of \<open>MultiFrameThread.__init__\<close> that compute \<open>self.folder\<close>: \<open>folder[-1]\<close>
  raises \<open>IndexError\<close> on the empty string.
\<close>

definition init_folder :: "string \<Rightarrow> error + string" where
  "init_folder fld =
     (if fld = [] then Inl IndexError
      else if last fld \<noteq> CHR ''/'' then Inr (fld @ ''/'') else Inr fld)"

text \<open>
  \<open>stop_check\<close> returns \<open>True\<close> or \<open>False\<close> for a bounded worker and falls off its end,
  returning \<open>None\<close>, when \<open>max_frames\<close> is not positive.
\<close>

definition stop_check :: "worker \<Rightarrow> bool option \<times> worker" where
  "stop_check w =
     (if 0 < max_frames w
      then (if max_frames w < d w + 2 then (Some True, stop w) else (Some False, w))
      else (None, w))"

text \<open>
  \<open>MultiFrameThread.__init__\<close>, after the camera has been started: it stores the base
  name, the folder as computed above and the file type, and calls \<open>set_process()\<close> before
  it assigns \<open>self.max_frames\<close> and \<open>self.aoi\<close>. For \<open>'.envi'\<close> the call reaches
  \<open>prep_envi_capture\<close>, which reads \<open>self.aoi\<close>, an attribute the object does not have
  yet: \<open>AttributeError\<close>. For every other file type the constructor returns the worker.
\<close>

definition MultiFrameThread_init :: "string \<Rightarrow> string \<Rightarrow> int \<Rightarrow> string \<Rightarrow> error + worker" where
  "MultiFrameThread_init fld name n ext =
     (case init_folder fld of
        Inl e \<Rightarrow> Inl e
      | Inr f \<Rightarrow>
          if ext = ''.envi'' then Inl AttributeError
          else Inr (GatherThread_init\<lparr>folder := f, base_name := name, file_type := ext,
                                       max_frames := n\<rparr>))"

text \<open>The values of \<open>d\<close> at the flushes among the events.\<close>

fun flushes :: "event list \<Rightarrow> int list" where
  "flushes [] = []"
| "flushes (Flush i # es) = i # flushes es"
| "flushes (e # es) = flushes es"

text \<open>An input is \<open>missed\<close> when it is a wait that the driver answers without success.\<close>

definition missed :: "input \<Rightarrow> bool" where
  "missed i = (case i of Wait ret mem_id t \<Rightarrow> ret \<noteq> IS_SUCCESS | ExternalStop \<Rightarrow> False)"

section \<open>Closing the connection\<close>

text \<open>
  C9 (as the code has it). \<open>exit\<close> does nothing on a closed handle, leaves the camera as it
  is when the driver refuses, and clears the handle when the driver reports success. Two
  calls in a row leave the camera as one call does whenever the handle was already closed,
  or the first call succeeded, or the second driver answer is not a success either.
\<close>

theorem exit_twice_as_once:
  "(h_cam c = None \<longrightarrow> exit r1 c = c) \<and>
   (r1 \<noteq> IS_SUCCESS \<longrightarrow> exit r1 c = c) \<and>
   (h_cam c \<noteq> None \<and> r1 = IS_SUCCESS \<longrightarrow> exit r1 c = c\<lparr>h_cam := None\<rparr>) \<and>
   (h_cam c = None \<or> r1 = IS_SUCCESS \<or> r2 \<noteq> IS_SUCCESS \<longrightarrow> exit r2 (exit r1 c) = exit r1 c)"
  by (auto simp: exit_def Let_def)

theorem exit_twice_as_once_witness:
  "exit IS_SUCCESS (exit IS_SUCCESS (Camera_init 1 3)) = exit IS_SUCCESS (Camera_init 1 3) \<and>
   h_cam (exit IS_SUCCESS (Camera_init 1 3)) = None \<and>
   exit (- 1) (Camera_init 1 3) = Camera_init 1 3"
  using exit_twice_as_once [of "Camera_init 1 3" IS_SUCCESS IS_SUCCESS]
    exit_twice_as_once [of "Camera_init 1 3" "- 1" 5]
  by (simp add: exit_def Camera_init_def IS_SUCCESS_def)

text \<open>
  A close that the driver refuses (code \<open>-1\<close>) followed by a retry that it accepts closes the
  handle, while the single refused call leaves it open.
\<close>

theorem exit_retry_counterexample:
  "exit IS_SUCCESS (exit (- 1) (Camera_init 1 3)) \<noteq> exit (- 1) (Camera_init 1 3) \<and>
   h_cam (exit IS_SUCCESS (exit (- 1) (Camera_init 1 3))) = None \<and>
   h_cam (exit (- 1) (Camera_init 1 3)) = Some 1"
  by (simp add: exit_def Camera_init_def IS_SUCCESS_def)

section \<open>The run loop: unlocking and the frame counter\<close>

lemma iteration_returns_balanced:
  "iteration snk st ret m t = Inr st' \<Longrightarrow> unlocked st = fetched st \<Longrightarrow> unlocked st' = fetched st'"
  by (auto simp: iteration_def private_process_def split: if_splits prod.splits option.splits)

lemma iteration_raises_holds_buffer:
  "iteration snk st ret m t = Inl (e, st') \<Longrightarrow> unlocked st = fetched st \<Longrightarrow>
   fetched st' = unlocked st' @ [m]"
  by (auto simp: iteration_def private_process_def split: if_splits prod.splits option.splits)

text \<open>
  C1 (as the code has it). Whatever the sink and whatever the driver and the controlling
  thread do, as long as no \<open>process\<close> call has raised the buffers unlocked are exactly the
  buffers fetched, in the same order: one unlock for each successful fetch. When a
  \<open>process\<close> call raises, the exception leaves \<open>run\<close> and the buffer of that frame is the one
  buffer fetched and never unlocked.
\<close>

theorem run_unlocks_each_processed_buffer:
  assumes "unlocked st = fetched st"
  shows "case run snk st ins of
           Exited st' \<Rightarrow> unlocked st' = fetched st'
         | Pending st' \<Rightarrow> unlocked st' = fetched st'
         | Raised e st' \<Rightarrow> \<exists>b. fetched st' = unlocked st' @ [b]"
  using assms
proof (induction snk st ins rule: run.induct)
  case (1 snk st)
  then show ?case by simp
next
  case (2 snk st ins)
  then show ?case by simp
next
  case (3 snk st ret mem_id t ins)
  show ?case
  proof (cases "running (wk st)")
    case False
    with 3 show ?thesis by simp
  next
    case True
    show ?thesis
    proof (cases "iteration snk st ret mem_id t")
      case (Inl a)
      obtain e st' where a: "a = (e, st')" by (cases a)
      from Inl a 3(2) have "fetched st' = unlocked st' @ [mem_id]"
        by (auto dest: iteration_raises_holds_buffer)
      with True Inl a show ?thesis by simp
    next
      case (Inr st')
      with 3(2) have "unlocked st' = fetched st'"
        by (auto dest: iteration_returns_balanced)
      with 3(1) [OF True Inr] True Inr show ?thesis by simp
    qed
  qed
qed

theorem run_unlocks_each_processed_buffer_witness:
  "unlocked (start GatherThread_init) = fetched (start GatherThread_init) \<and>
   run process (start GatherThread_init) [Wait IS_SUCCESS 1 10, Wait 122 0 0, Wait IS_SUCCESS 2 11] =
     Pending \<lparr>wk = GatherThread_init\<lparr>d := 3, capt_time := 11, events := [Warning 1]\<rparr>,
              fetched = [1, 2], unlocked = [1, 2]\<rparr>"
  using run_unlocks_each_processed_buffer
    [of "start GatherThread_init" process "[Wait IS_SUCCESS 1 10, Wait 122 0 0, Wait IS_SUCCESS 2 11]"]
  by (simp add: start_def GatherThread_init_def iteration_def private_process_def process_def
      IS_SUCCESS_def)

text \<open>
  A sink that raises on the first frame: the loop ends with the exception, buffer 7 has
  been fetched and nothing has been unlocked.
\<close>

theorem process_raises_no_unlock_counterexample:
  "run failing_process (start GatherThread_init) [Wait IS_SUCCESS 7 100] =
     Raised SinkError \<lparr>wk = GatherThread_init\<lparr>capt_time := 100\<rparr>, fetched = [7], unlocked = []\<rparr>"
  by (simp add: start_def GatherThread_init_def iteration_def private_process_def
      failing_process_def IS_SUCCESS_def)

text \<open>
  C2 (as the code has it). A wait that the driver answers without success prints the
  warning with the current \<open>d\<close> and then adds one to \<open>d\<close>; nothing else changes. A running
  worker that meets n such waits in a row is still running, has printed the warnings for
  \<open>d, d + 1, ..., d + n - 1\<close>, has \<open>d\<close> raised by n and \<open>capt_time\<close>, the fetched and the
  unlocked buffers as before.
\<close>

theorem run_missed_frames:
  assumes "running (wk st)" and "\<forall>i \<in> set ins. missed i"
  shows "run snk st ins =
     Pending (st\<lparr>wk := (wk st)\<lparr>events := events (wk st) @
                                 map (\<lambda>k. Warning (d (wk st) + int k)) [0..<length ins],
                              d := d (wk st) + int (length ins)\<rparr>\<rparr>)"
  using assms
proof (induction ins arbitrary: st)
  case Nil
  then show ?case by simp
next
  case (Cons i ins)
  then obtain ret m t where i: "i = Wait ret m t" and r: "ret \<noteq> IS_SUCCESS"
    by (cases i) (auto simp: missed_def)
  let ?st = "st\<lparr>wk := (wk st)\<lparr>events := events (wk st) @ [Warning (d (wk st))],
                              d := d (wk st) + 1\<rparr>\<rparr>"
  have it: "iteration snk st ret m t = Inr ?st"
    using r by (simp add: iteration_def)
  have run: "running (wk ?st)"
    using Cons.prems by simp
  have rest: "\<forall>i \<in> set ins. missed i"
    using Cons.prems by simp
  have m: "map (\<lambda>k. Warning (d (wk st) + int k)) [0..<Suc (length ins)] =
        Warning (d (wk st)) # map (\<lambda>k. Warning (d (wk st) + 1 + int k)) [0..<length ins]"
    by (simp add: upt_conv_Cons map_Suc_upt [symmetric] del: upt_Suc)
  show ?case
    using Cons.prems(1) it Cons.IH [OF run rest] m by (simp add: i add.assoc)
qed

theorem run_missed_frames_witness:
  "running (wk (start GatherThread_init)) \<and>
   missed (Wait 122 0 0) \<and>
   run process (start GatherThread_init) [Wait 122 0 0, Wait 122 0 0, Wait 122 0 0] =
     Pending \<lparr>wk = GatherThread_init\<lparr>d := 3, events := [Warning 0, Warning 1, Warning 2]\<rparr>,
              fetched = [], unlocked = []\<rparr>"
  using run_missed_frames
    [of "start GatherThread_init" "[Wait 122 0 0, Wait 122 0 0, Wait 122 0 0]" process]
  by (simp add: start_def GatherThread_init_def missed_def IS_SUCCESS_def upt_rec)

text \<open>
  Three waits that time out (code 122), no success: \<open>d\<close> is 3 afterwards, not 0, while
  \<open>capt_time\<close> still is the initial \<open>-1\<close>.
\<close>

theorem three_misses_counterexample:
  "d (wk (state_of (run process (start GatherThread_init)
        [Wait 122 0 0, Wait 122 0 0, Wait 122 0 0]))) = 3 \<and>
   d (wk (state_of (run process (start GatherThread_init)
        [Wait 122 0 0, Wait 122 0 0, Wait 122 0 0]))) \<noteq> d GatherThread_init \<and>
   capt_time (wk (state_of (run process (start GatherThread_init)
        [Wait 122 0 0, Wait 122 0 0, Wait 122 0 0]))) = - 1"
  by (simp add: start_def GatherThread_init_def iteration_def state_of_def IS_SUCCESS_def)

section \<open>Rounding to a double\<close>

lemma flog2_bounds:
  "0 < x \<Longrightarrow> 2 powi flog2 x \<le> x \<and> x < 2 powi (flog2 x + 1)"
proof (induction x rule: flog2.induct)
  case (1 x)
  show ?case
  proof (cases "x < 1")
    case True
    then have f: "flog2 x = flog2 (2 * x) - 1"
      using 1(3) by (subst flog2.simps) simp
    have "2 powi flog2 (2 * x) \<le> 2 * x \<and> 2 * x < 2 powi (flog2 (2 * x) + 1)"
      using 1(1) 1(3) True by simp
    moreover have "(2::rat) powi flog2 (2 * x) = 2 * 2 powi (flog2 (2 * x) - 1)"
      by (simp add: power_int_diff)
    moreover have "(2::rat) powi (flog2 (2 * x) + 1) = 2 * 2 powi flog2 (2 * x)"
      by (simp add: power_int_add)
    ultimately show ?thesis using f by simp
  next
    case False
    show ?thesis
    proof (cases "2 \<le> x")
      case True
      then have f: "flog2 x = flog2 (x / 2) + 1"
        using 1(3) False by (subst flog2.simps) simp
      have "2 powi flog2 (x / 2) \<le> x / 2 \<and> x / 2 < 2 powi (flog2 (x / 2) + 1)"
        using 1(2) 1(3) False True by simp
      moreover have "(2::rat) powi (flog2 (x / 2) + 1) = 2 * 2 powi flog2 (x / 2)"
        by (simp add: power_int_add)
      moreover have "(2::rat) powi (flog2 (x / 2) + 1 + 1) = 2 * 2 powi (flog2 (x / 2) + 1)"
        by (simp add: power_int_add)
      ultimately show ?thesis using f by simp
    next
      case F2: False
      then have "flog2 x = 0" using 1(3) False by (subst flog2.simps) simp
      then show ?thesis using False F2 by simp
    qed
  qed
qed

lemma flog2_eq:
  assumes "2 powi k \<le> x" and "x < 2 powi (k + 1)"
  shows "flog2 x = k"
proof -
  have "(0::rat) < 2 powi k"
    by (rule zero_less_power_int) simp
  with assms(1) have pos: "0 < x" by linarith
  from flog2_bounds [OF pos]
  have b: "2 powi flog2 x \<le> x" "x < 2 powi (flog2 x + 1)" by simp_all
  have "\<not> flog2 x < k"
  proof
    assume "flog2 x < k"
    then have "flog2 x + 1 \<le> k" by simp
    then have "(2::rat) powi (flog2 x + 1) \<le> 2 powi k"
      by (intro power_int_increasing) simp_all
    with b(2) assms(1) show False by simp
  qed
  moreover have "\<not> k < flog2 x"
  proof
    assume "k < flog2 x"
    then have "k + 1 \<le> flog2 x" by simp
    then have "(2::rat) powi (k + 1) \<le> 2 powi flog2 x"
      by (intro power_int_increasing) simp_all
    with b(1) assms(2) show False by simp
  qed
  ultimately show ?thesis by simp
qed


lemma round_half_even_of_int [simp]: "round_half_even (of_int n) = n"
  by (simp add: round_half_even_def)

lemma round_half_even_eq:
  "of_int n - 1 / 2 < x \<Longrightarrow> x < of_int n + 1 / 2 \<Longrightarrow> round_half_even x = n"
proof -
  assume a: "of_int n - 1 / 2 < x" "x < of_int n + 1 / 2"
  have f: "of_int \<lfloor>x\<rfloor> \<le> x" "x < of_int \<lfloor>x\<rfloor> + 1" by linarith+
  have "\<lfloor>x\<rfloor> = n \<or> \<lfloor>x\<rfloor> = n - 1" using a by linarith
  then show ?thesis
  proof
    assume h: "\<lfloor>x\<rfloor> = n"
    then have "x - of_int \<lfloor>x\<rfloor> < 1 / 2" using a by simp
    then show ?thesis using h by (simp add: round_half_even_def Let_def)
  next
    assume h: "\<lfloor>x\<rfloor> = n - 1"
    then have "1 / 2 < x - of_int \<lfloor>x\<rfloor>" using a by simp
    then show ?thesis using h by (simp add: round_half_even_def Let_def)
  qed
qed

lemma double_rounds:
  assumes "2 powi k \<le> \<bar>x\<bar>" and "\<bar>x\<bar> < 2 powi (k + 1)"
    and "e = max (k - 52) (- 1074)"
    and "round_half_even (x / 2 powi e) = n"
    and "\<bar>of_int n * 2 powi e\<bar> < (2::rat) powi 1024"
  shows "double x = Some (of_int n * 2 powi e)"
proof -
  have "(0::rat) < 2 powi k" by (rule zero_less_power_int) simp
  with assms(1) have "0 < \<bar>x\<bar>" by linarith
  then have "x \<noteq> 0" by simp
  moreover have "flog2 \<bar>x\<bar> = k" using assms(1,2) by (rule flog2_eq)
  ultimately show ?thesis
    using assms(3,4,5) by (simp add: double_def Let_def del: power_int_numeral)
qed

lemma double_exact:
  assumes "2 powi k \<le> \<bar>x\<bar>" and "\<bar>x\<bar> < 2 powi (k + 1)"
    and "e = max (k - 52) (- 1074)"
    and "x = of_int n * 2 powi e"
    and "k < 1024"
  shows "double x = Some x"
proof -
  have p: "(0::rat) < 2 powi e" by (rule zero_less_power_int) simp
  then have "x / 2 powi e = of_int n" using assms(4) by simp
  then have r: "round_half_even (x / 2 powi e) = n" by simp
  have "(2::rat) powi (k + 1) \<le> 2 powi 1024"
    using assms(5) by (intro power_int_increasing) simp_all
  with assms(2) have "\<bar>of_int n * 2 powi e\<bar> < (2::rat) powi 1024"
    using assms(4) by simp
  from double_rounds [OF assms(1,2,3) r this] assms(4) show ?thesis by simp
qed

lemma round_half_even_cases:
  "(x - of_int \<lfloor>x\<rfloor> < 1 / 2 \<and> round_half_even x = \<lfloor>x\<rfloor>) \<or>
   (1 / 2 < x - of_int \<lfloor>x\<rfloor> \<and> round_half_even x = \<lfloor>x\<rfloor> + 1) \<or>
   (x - of_int \<lfloor>x\<rfloor> = 1 / 2 \<and> even \<lfloor>x\<rfloor> \<and> round_half_even x = \<lfloor>x\<rfloor>) \<or>
   (x - of_int \<lfloor>x\<rfloor> = 1 / 2 \<and> odd \<lfloor>x\<rfloor> \<and> round_half_even x = \<lfloor>x\<rfloor> + 1)"
  unfolding round_half_even_def Let_def by auto

lemma round_half_even_nearest:
  "\<bar>of_int (round_half_even x) - x\<bar> \<le> 1 / 2"
proof -
  have "of_int \<lfloor>x\<rfloor> \<le> x" "x < of_int \<lfloor>x\<rfloor> + 1" by linarith+
  with round_half_even_cases [of x] show ?thesis by auto
qed

lemma round_half_even_tie:
  assumes "\<bar>of_int (round_half_even x) - x\<bar> = 1 / 2"
  shows "even (round_half_even x)"
proof -
  have "of_int \<lfloor>x\<rfloor> \<le> x" "x < of_int \<lfloor>x\<rfloor> + 1" by linarith+
  with round_half_even_cases [of x] assms show ?thesis by auto
qed


lemma round_half_even_nonneg: "0 \<le> x \<Longrightarrow> 0 \<le> round_half_even x"
proof -
  assume "0 \<le> x"
  then have "0 \<le> \<lfloor>x\<rfloor>" by simp
  with round_half_even_cases [of x] show ?thesis by auto
qed


lemma double_1_2: "double (1 / 2) = Some (1 / 2)"
  by (rule double_exact [where k = "- 1" and e = "- 53" and n = "2 ^ 52"])
    (simp_all add: power_int_minus)

lemma double_3_4: "double (3 / 4) = Some (3 / 4)"
  by (rule double_exact [where k = "- 1" and e = "- 53" and n = "3 * 2 ^ 51"])
    (simp_all add: power_int_minus)

lemma double_7_4: "double (7 / 4) = Some (7 / 4)"
  by (rule double_exact [where k = 0 and e = "- 52" and n = "7 * 2 ^ 50"])
    (simp_all add: power_int_minus)

lemma double_1: "double 1 = Some 1"
  by (rule double_exact [where k = 0 and e = "- 52" and n = "2 ^ 52"])
    (simp_all add: power_int_minus)

lemma double_3_2: "double (3 / 2) = Some (3 / 2)"
  by (rule double_exact [where k = 0 and e = "- 52" and n = "3 * 2 ^ 51"])
    (simp_all add: power_int_minus)

lemma double_5_2: "double (5 / 2) = Some (5 / 2)"
  by (rule double_exact [where k = 1 and e = "- 51" and n = "5 * 2 ^ 50"])
    (simp_all add: power_int_minus)

lemma double_15: "double 15 = Some 15"
  by (rule double_exact [where k = 3 and e = "- 49" and n = "15 * 2 ^ 49"])
    (simp_all add: power_int_minus)

lemma double_16: "double 16 = Some 16"
  by (rule double_exact [where k = 4 and e = "- 48" and n = "16 * 2 ^ 48"])
    (simp_all add: power_int_minus)

lemma double_inverse_tenth:
  "double (36028797018963968 / 3602879701896397) = Some 10"
proof -
  have r: "round_half_even (36028797018963968 / 3602879701896397 / 2 powi - 49) = 10 * 2 ^ 49"
    by (rule round_half_even_eq) (simp_all add: power_int_minus)
  have "double (36028797018963968 / 3602879701896397) =
      Some (of_int (10 * 2 ^ 49) * 2 powi - 49)"
    by (rule double_rounds [where k = 3, OF _ _ _ r]) (simp_all add: power_int_minus)
  then show ?thesis by (simp add: power_int_minus)
qed

section \<open>Frame rate, time-out and the capture methods\<close>

lemma timeout_at_2: "current_fps c = None \<Longrightarrow> get_timeout uEye c = Inr 1000"
  by (simp add: get_timeout_def get_fps_def uEye_def check_def
      double_1_2 double_3_4 double_7_4 py_int_def floor_eq_iff)

text \<open>
  C5. The claim is what the method plainly sets out to do, and the code misses it: with
  one frame asked for and the wait timing out (code 122), \<open>capture_images\<close> raises
  \<open>NameError\<close> and returns no sequence; so it does when the second of three frames is
  missed. Only a run without a missed frame returns its \<open>nmb\<close> images.
\<close>

theorem capture_images_missed_frame_raises:
  "capture_images uEye (Camera_init 1 3) (\<lambda>t i. (122, 0)) 1 (Some 1000) = Inl NameError \<and>
   capture_images uEye (Camera_init 1 3) (\<lambda>t i. if i = 1 then (122, 0) else (IS_SUCCESS, i)) 3 None =
     Inl NameError \<and>
   capture_images uEye (Camera_init 1 3) (\<lambda>t i. (IS_SUCCESS, i)) 3 None =
     Inr [Some 0, Some 1, Some 2]"
  by (simp add: capture_images_def fetch_timeout_def timeout_at_2 Camera_init_def
      IS_SUCCESS_def upt_rec)


text \<open>
  C6 (as the code has it). With the frame rate \<open>f\<close> of \<open>get_fps\<close>, and 1 in place of
  \<open>f = 0\<close>, let \<open>s\<close> be the float that \<open>1.5 * (1/f) + 1\<close> evaluates to, through the rounded
  quotient \<open>q\<close> and the rounded product \<open>p\<close>. The default time-out of \<open>capture_image\<close> and
  \<open>capture_images\<close> is \<open>int(s) * 1000\<close>: the seconds lose their fraction, towards zero,
  before they are turned into milliseconds.
\<close>

theorem default_timeout_whole_seconds:
  assumes "get_fps drv c = Inr f"
    and "double (1 / (if f = 0 then 1 else f)) = Some q"
    and "double (3 / 2 * q) = Some p"
    and "double (p + 1) = Some s"
  shows "fetch_timeout drv c None = Inr (py_int s * 1000) \<and>
    (0 \<le> s \<longrightarrow> of_int (py_int s) \<le> s \<and> s < of_int (py_int s) + 1) \<and>
    (s < 0 \<longrightarrow> s \<le> of_int (py_int s) \<and> of_int (py_int s) < s + 1) \<and>
    capture_image drv c wait None = capture_image drv c wait (Some (py_int s * 1000)) \<and>
    capture_images drv c wait nmb None =
      capture_images drv c wait nmb (Some (py_int s * 1000))"
proof -
  have g: "fetch_timeout drv c None = Inr (py_int s * 1000)"
    using assms by (simp add: fetch_timeout_def get_timeout_def Let_def)
  have a: "0 \<le> s \<Longrightarrow> of_int (py_int s) \<le> s \<and> s < of_int (py_int s) + 1"
    by (simp add: py_int_def del: of_int_floor_le) linarith
  have b: "s < 0 \<Longrightarrow> s \<le> of_int (py_int s) \<and> of_int (py_int s) < s + 1"
    by (simp add: py_int_def) linarith
  have ci: "capture_image drv c wait None = capture_image drv c wait (Some (py_int s * 1000))"
    using g by (simp add: capture_image_def fetch_timeout_def)
  have cs: "capture_images drv c wait nmb None =
      capture_images drv c wait nmb (Some (py_int s * 1000))"
    using g by (simp add: capture_images_def fetch_timeout_def)
  show ?thesis using g a b ci cs by blast
qed

theorem default_timeout_whole_seconds_witness:
  "get_fps uEye (Camera_init 1 3) = Inr 2 \<and>
   fetch_timeout uEye (Camera_init 1 3) None = Inr 1000 \<and>
   get_fps uEye ((Camera_init 1 3)\<lparr>current_fps := Some 0\<rparr>) = Inr 0 \<and>
   fetch_timeout uEye ((Camera_init 1 3)\<lparr>current_fps := Some 0\<rparr>) None = Inr 2000 \<and>
   fetch_timeout uEye
     ((Camera_init 1 3)\<lparr>current_fps := Some (3602879701896397 / 36028797018963968)\<rparr>) None =
     Inr 16000"
  using default_timeout_whole_seconds
      [of uEye "Camera_init 1 3" 2 "1 / 2" "3 / 4" "7 / 4" "\<lambda>t i. (IS_SUCCESS, i)" 3]
    default_timeout_whole_seconds
      [of uEye "(Camera_init 1 3)\<lparr>current_fps := Some 0\<rparr>" 0 1 "3 / 2" "5 / 2"
          "\<lambda>t i. (IS_SUCCESS, i)" 3]
    default_timeout_whole_seconds
      [of uEye "(Camera_init 1 3)\<lparr>current_fps := Some (3602879701896397 / 36028797018963968)\<rparr>"
          "3602879701896397 / 36028797018963968" 10 15 16 "\<lambda>t i. (IS_SUCCESS, i)" 3]
  by (simp add: get_fps_def uEye_def Camera_init_def check_def py_int_def floor_eq_iff
      double_1_2 double_3_4 double_7_4 double_1 double_3_2 double_5_2 double_15 double_16
      double_inverse_tenth)

text \<open>
  At 2 frames per second \<open>1.5 * (1/2) + 1\<close> is 1.75 s, that is 1750 ms, and the default
  time-out is 1000 ms. The three floats involved, 0.5, 0.75 and 1.75, are exact.
\<close>

theorem timeout_at_2_fps_counterexample:
  "get_fps uEye (Camera_init 1 3) = Inr 2 \<and>
   fetch_timeout uEye (Camera_init 1 3) None = Inr 1000 \<and>
   double (1 / 2) = Some (1 / 2) \<and> double (3 / 2 * (1 / 2)) = Some (3 / 4) \<and>
   double (3 / 4 + 1) = Some (7 / 4) \<and>
   (7 / 4) * 1000 = (1750 :: rat)"
proof -
  have "get_fps uEye (Camera_init 1 3) = Inr 2"
    by (simp add: get_fps_def uEye_def Camera_init_def check_def)
  moreover have "fetch_timeout uEye (Camera_init 1 3) None = Inr 1000"
    by (simp add: fetch_timeout_def timeout_at_2 Camera_init_def)
  ultimately show ?thesis
    by (simp add: double_1_2 double_3_4 double_7_4)
qed

text \<open>
  C8 (as the code has it). \<open>set_fps\<close> asks the driver for the range minimum when the
  target is below the range, for the range maximum when it is above, and for the target
  itself when it is inside; in each case it returns and caches what the driver reports
  for that request, and \<open>get_fps\<close> then returns the cached value whatever the driver is.
\<close>

theorem set_fps_reports_driver_value:
  assumes "get_fps_range drv = Inr (mini, maxi)" and "mini \<le> maxi"
  shows "(fps < mini \<and> SetFrameRate drv mini = (IS_SUCCESS, actual) \<longrightarrow>
       set_fps drv c fps = Inr (actual, c\<lparr>current_fps := Some actual\<rparr>)) \<and>
    (maxi < fps \<and> SetFrameRate drv maxi = (IS_SUCCESS, actual) \<longrightarrow>
       set_fps drv c fps = Inr (actual, c\<lparr>current_fps := Some actual\<rparr>)) \<and>
    (mini \<le> fps \<and> fps \<le> maxi \<and> SetFrameRate drv fps = (IS_SUCCESS, actual) \<longrightarrow>
       set_fps drv c fps = Inr (actual, c\<lparr>current_fps := Some actual\<rparr>)) \<and>
    get_fps drv' (c\<lparr>current_fps := Some actual\<rparr>) = Inr actual"
  using assms by (auto simp: set_fps_def get_fps_def check_def Let_def)

theorem set_fps_reports_driver_value_witness:
  "get_fps_range uEye = Inr (1, 50) \<and>
   set_fps uEye (Camera_init 1 3) (1 / 2) =
     Inr (99 / 100, (Camera_init 1 3)\<lparr>current_fps := Some (99 / 100)\<rparr>) \<and>
   set_fps uEye (Camera_init 1 3) 60 =
     Inr (99 / 2, (Camera_init 1 3)\<lparr>current_fps := Some (99 / 2)\<rparr>) \<and>
   set_fps uEye (Camera_init 1 3) 30 =
     Inr (297 / 10, (Camera_init 1 3)\<lparr>current_fps := Some (297 / 10)\<rparr>) \<and>
   get_fps uEye ((Camera_init 1 3)\<lparr>current_fps := Some (297 / 10)\<rparr>) = Inr (297 / 10)"
  using set_fps_reports_driver_value [of uEye 1 50 "1 / 2" "99 / 100" "Camera_init 1 3" uEye]
    set_fps_reports_driver_value [of uEye 1 50 60 "99 / 2" "Camera_init 1 3" uEye]
    set_fps_reports_driver_value [of uEye 1 50 30 "297 / 10" "Camera_init 1 3" uEye]
  by (simp add: get_fps_range_def uEye_def check_def)

text \<open>
  With the range \<open>[1, 50]\<close> and the target 1/2 the driver is asked for 1 and reports
  99/100: that, not the range minimum 1, is returned and cached.
\<close>

theorem set_fps_below_range_counterexample:
  "get_fps_range uEye = Inr (1, 50) \<and>
   set_fps uEye (Camera_init 1 3) (1 / 2) =
     Inr (99 / 100, (Camera_init 1 3)\<lparr>current_fps := Some (99 / 100)\<rparr>) \<and>
   (99 / 100 :: rat) \<noteq> 1"
  by (simp add: set_fps_def get_fps_range_def uEye_def check_def Let_def)

section \<open>The multi-frame worker: stop check and external stop\<close>

lemma flushes_append [simp]: "flushes (es @ fs) = flushes es @ flushes fs"
  by (induction es rule: flushes.induct) auto

text \<open>
  C3 (as the code has it). For a bounded worker (\<open>max_frames > 0\<close>) \<open>stop_check\<close> succeeds
  exactly when \<open>d \<ge> max_frames - 1\<close>; it then stops the worker, and otherwise leaves it
  as it is. For \<open>max_frames = 5\<close> the check fails at \<open>d = 0, 1, 2, 3\<close> and first succeeds
  at \<open>d = 4\<close>.
\<close>

theorem stop_check_boundary:
  assumes "0 < max_frames w"
  shows "(fst (stop_check w) = Some True) = (max_frames w - 1 \<le> d w) \<and>
    (d w < max_frames w - 1 \<longrightarrow> stop_check w = (Some False, w)) \<and>
    (max_frames w - 1 \<le> d w \<longrightarrow> stop_check w = (Some True, stop w)) \<and>
    \<not> running (stop w)"
  using assms by (auto simp: stop_check_def stop_def)

theorem stop_check_boundary_witness:
  "stop_check (GatherThread_init\<lparr>max_frames := 5, d := 3\<rparr>) =
     (Some False, GatherThread_init\<lparr>max_frames := 5, d := 3\<rparr>) \<and>
   stop_check (GatherThread_init\<lparr>max_frames := 5, d := 4\<rparr>) =
     (Some True, GatherThread_init\<lparr>max_frames := 5, d := 4, events := [StopVideo],
                                   running := False\<rparr>)"
  using stop_check_boundary [of "GatherThread_init\<lparr>max_frames := 5, d := 3\<rparr>"]
    stop_check_boundary [of "GatherThread_init\<lparr>max_frames := 5, d := 4\<rparr>"]
  by (simp add: GatherThread_init_def stop_def)

text \<open>
  The worker that the constructor returns for \<open>max_frames = 5\<close> runs \<open>GatherThread.process\<close>:
  after six delivered frames it has written nothing and is still running, with \<open>d = 6\<close>.
  And a check made at the fourth frame, where \<open>d = 3\<close>, does not stop a worker.
\<close>

theorem bounded_worker_counterexample:
  "MultiFrameThread_init ''out'' ''img'' 5 ''.png'' =
     Inr (GatherThread_init\<lparr>folder := ''out/'', base_name := ''img'', file_type := ''.png'',
                             max_frames := 5\<rparr>) \<and>
   run MultiFrameThread_process
     (start (GatherThread_init\<lparr>folder := ''out/'', base_name := ''img'', file_type := ''.png'',
                                max_frames := 5\<rparr>))
     [Wait IS_SUCCESS 1 10, Wait IS_SUCCESS 2 11, Wait IS_SUCCESS 3 12, Wait IS_SUCCESS 1 13,
      Wait IS_SUCCESS 2 14, Wait IS_SUCCESS 3 15] =
     Pending \<lparr>wk = GatherThread_init\<lparr>folder := ''out/'', base_name := ''img'',
                  file_type := ''.png'', max_frames := 5, d := 6, capt_time := 15\<rparr>,
              fetched = [1, 2, 3, 1, 2, 3], unlocked = [1, 2, 3, 1, 2, 3]\<rparr> \<and>
   stop_check (GatherThread_init\<lparr>max_frames := 5, d := 3\<rparr>) =
     (Some False, GatherThread_init\<lparr>max_frames := 5, d := 3\<rparr>)"
  by (simp add: MultiFrameThread_init_def init_folder_def MultiFrameThread_process_def
      process_def start_def GatherThread_init_def iteration_def private_process_def
      stop_check_def IS_SUCCESS_def)




section \<open>File names of the multi-frame worker\<close>

lemma double_ms: "double (6800000000375 / 4) = Some (6800000000375 / 4)"
  by (rule double_exact [where k = 40 and e = "- 12" and n = "6800000000375 * 2 ^ 10"])
    (simp_all add: power_int_minus)

lemma format_ms: "format_0f (6800000000375 / 4) = ''1700000000094''"
proof -
  have "round_half_even (6800000000375 / 4) = 1700000000094"
    by (rule round_half_even_eq) simp_all
  then show ?thesis by (simp add: format_0f_def digits.simps)
qed

lemma time_str_ms: "capt_time w = 54400000003 / 32 \<Longrightarrow> time_str w = ''1700000000094''"
proof -
  assume "capt_time w = 54400000003 / 32"
  then have p: "capt_time w * 1000 = 6800000000375 / 4" by simp
  show ?thesis unfolding time_str_def p by (simp add: double_ms format_ms)
qed

lemma double_ms_rounded:
  "double (891289600000786375 / 524288) = Some (3400000000003 / 2)"
proof -
  have r: "round_half_even (891289600000786375 / 524288 / 2 powi - 12) = 6963200000006144"
    by (rule round_half_even_eq) (simp_all add: power_int_minus)
  have "double (891289600000786375 / 524288) =
      Some (of_int 6963200000006144 * 2 powi - 12)"
    by (rule double_rounds [where k = 40, OF _ _ _ r]) (simp_all add: power_int_minus)
  then show ?thesis by (simp add: power_int_minus)
qed

lemma format_ms_rounded: "format_0f (3400000000003 / 2) = ''1700000000002''"
proof -
  have f: "\<lfloor>3400000000003 / 2 :: rat\<rfloor> = 1700000000001"
    by (simp add: floor_eq_iff)
  have "round_half_even (3400000000003 / 2) = 1700000000002"
    unfolding round_half_even_def Let_def f by simp
  then show ?thesis by (simp add: format_0f_def digits.simps)
qed

lemma time_str_ms_rounded:
  "capt_time w = 7130316800006291 / 4194304 \<Longrightarrow> time_str w = ''1700000000002''"
proof -
  assume "capt_time w = 7130316800006291 / 4194304"
  then have p: "capt_time w * 1000 = 891289600000786375 / 524288" by simp
  show ?thesis unfolding time_str_def p by (simp add: double_ms_rounded format_ms_rounded)
qed

lemma double_tie: "double (125 / 2) = Some (125 / 2)"
  by (rule double_exact [where k = 5 and e = "- 47" and n = "125 * 2 ^ 46"])
    (simp_all add: power_int_minus)

lemma format_tie: "format_0f (125 / 2) = ''62''"
proof -
  have f: "\<lfloor>125 / 2 :: rat\<rfloor> = 62"
    by (simp add: floor_eq_iff)
  have "round_half_even (125 / 2) = 62"
    unfolding round_half_even_def Let_def f by simp
  then show ?thesis by (simp add: format_0f_def digits.simps)
qed

lemma time_str_tie: "capt_time w = 1 / 16 \<Longrightarrow> time_str w = ''62''"
proof -
  assume "capt_time w = 1 / 16"
  then have p: "capt_time w * 1000 = 125 / 2" by simp
  show ?thesis unfolding time_str_def p by (simp add: double_tie format_tie)
qed

lemma digits_floor_ms: "digits 1700000000093 = ''1700000000093''"
  by (simp add: digits.simps)

text \<open>
  C7 (as the code has it). The path that \<open>set_path\<close> computes is
  \<open>folder + base_name + time_str() + file_type\<close>. With \<open>ms\<close> the float that
  \<open>capt_time*1000\<close> evaluates to, \<open>time_str()\<close> prints \<open>ms\<close> rounded to the nearest integer, a
  tie going to the even one: for \<open>ms\<close> not negative it is the decimal numeral of that
  integer.
\<close>

theorem set_path_rounds_capture_time:
  assumes "double (capt_time w * 1000) = Some ms"
  shows "path (set_path w) = folder w @ base_name w @ time_str w @ file_type w \<and>
   time_str w = format_0f ms \<and>
   (0 \<le> ms \<longrightarrow> time_str w = digits (nat (round_half_even ms))) \<and>
   \<bar>of_int (round_half_even ms) - ms\<bar> \<le> 1 / 2 \<and>
   (\<bar>of_int (round_half_even ms) - ms\<bar> = 1 / 2 \<longrightarrow> even (round_half_even ms))"
proof -
  have t: "time_str w = format_0f ms"
    using assms by (simp add: time_str_def)
  have "0 \<le> ms \<Longrightarrow> time_str w = digits (nat (round_half_even ms))"
    using round_half_even_nonneg [of ms] t by (simp add: format_0f_def)
  then show ?thesis
    using t round_half_even_nearest [of ms] round_half_even_tie [of ms]
    by (simp add: set_path_def)
qed

theorem set_path_rounds_capture_time_witness:
  "path (set_path (GatherThread_init\<lparr>capt_time := 54400000003 / 32, folder := ''out/'',
       base_name := ''img'', file_type := ''.png''\<rparr>)) = ''out/img1700000000094.png'' \<and>
   time_str (GatherThread_init\<lparr>capt_time := 7130316800006291 / 4194304\<rparr>) =
     ''1700000000002'' \<and>
   time_str (GatherThread_init\<lparr>capt_time := 1 / 16\<rparr>) = ''62''"
  using set_path_rounds_capture_time
      [of "GatherThread_init\<lparr>capt_time := 54400000003 / 32, folder := ''out/'',
             base_name := ''img'', file_type := ''.png''\<rparr>" "6800000000375 / 4"]
    set_path_rounds_capture_time
      [of "GatherThread_init\<lparr>capt_time := 7130316800006291 / 4194304\<rparr>"
          "3400000000003 / 2"]
    set_path_rounds_capture_time [of "GatherThread_init\<lparr>capt_time := 1 / 16\<rparr>" "125 / 2"]
    time_str_ms [of "GatherThread_init\<lparr>capt_time := 54400000003 / 32, folder := ''out/'',
             base_name := ''img'', file_type := ''.png''\<rparr>"]
    time_str_ms_rounded [of "GatherThread_init\<lparr>capt_time := 7130316800006291 / 4194304\<rparr>"]
    time_str_tie [of "GatherThread_init\<lparr>capt_time := 1 / 16\<rparr>"]
  by (simp add: double_ms double_ms_rounded double_tie)

text \<open>
  A capture time of 1700000000.09375 s, that is 54400000003/32: the float product is
  1700000000093.75 exactly and the path has 1700000000094, while the floor of the
  milliseconds would give 1700000000093.
\<close>

theorem time_str_not_floor_counterexample:
  "path (set_path (GatherThread_init\<lparr>capt_time := 54400000003 / 32, folder := ''out/'',
       base_name := ''img'', file_type := ''.png''\<rparr>)) = ''out/img1700000000094.png'' \<and>
   double (54400000003 / 32 * 1000) = Some (6800000000375 / 4) \<and>
   ''out/'' @ ''img'' @ digits (nat \<lfloor>6800000000375 / 4 :: rat\<rfloor>) @ ''.png'' =
     ''out/img1700000000093.png''"
proof -
  have f: "\<lfloor>6800000000375 / 4 :: rat\<rfloor> = 1700000000093"
    by (simp add: floor_eq_iff)
  show ?thesis
    using time_str_ms [of "GatherThread_init\<lparr>capt_time := 54400000003 / 32, folder := ''out/'',
             base_name := ''img'', file_type := ''.png''\<rparr>"]
    by (simp add: set_path_def f digits_floor_ms double_ms)
qed

text \<open>
  C10. The constructor stores a non-empty folder with \<open>'/'\<close> appended when it does not
  end in \<open>'/'\<close> and unchanged when it does, and raises \<open>IndexError\<close> on the empty string,
  whatever the file type. A non-empty folder with the file type \<open>'.envi'\<close> gets as far as
  \<open>set_process()\<close>, which raises \<open>AttributeError\<close>; with any other file type the constructor
  returns the worker. The folder of a worker it returns ends in \<open>'/'\<close>, and every path of
  \<open>set_path\<close> has that separator right before the base name.
\<close>

theorem init_folder_separator:
  "(fld \<noteq> [] \<and> last fld \<noteq> CHR ''/'' \<longrightarrow> init_folder fld = Inr (fld @ ''/'')) \<and>
   (fld \<noteq> [] \<and> last fld = CHR ''/'' \<longrightarrow> init_folder fld = Inr fld) \<and>
   MultiFrameThread_init [] name n ext = Inl IndexError \<and>
   (fld \<noteq> [] \<longrightarrow> MultiFrameThread_init fld name n ''.envi'' = Inl AttributeError) \<and>
   (ext \<noteq> ''.envi'' \<and> init_folder fld = Inr f \<longrightarrow>
      MultiFrameThread_init fld name n ext =
        Inr (GatherThread_init\<lparr>folder := f, base_name := name, file_type := ext,
                                max_frames := n\<rparr>)) \<and>
   (MultiFrameThread_init fld name n ext = Inr w \<longrightarrow>
      init_folder fld = Inr (folder w) \<and> folder w \<noteq> [] \<and> last (folder w) = CHR ''/'' \<and>
      path (set_path (w\<lparr>capt_time := t\<rparr>)) =
        butlast (folder w) @ ''/'' @ name @ time_str (w\<lparr>capt_time := t\<rparr>) @ ext)"
proof -
  have "MultiFrameThread_init fld name n ext = Inr w \<Longrightarrow>
      init_folder fld = Inr (folder w) \<and> folder w \<noteq> [] \<and> last (folder w) = CHR ''/'' \<and>
      path (set_path (w\<lparr>capt_time := t\<rparr>)) =
        butlast (folder w) @ ''/'' @ name @ time_str (w\<lparr>capt_time := t\<rparr>) @ ext"
  proof -
    assume a: "MultiFrameThread_init fld name n ext = Inr w"
    then have i: "init_folder fld = Inr (folder w)"
      and f: "folder w \<noteq> [] \<and> last (folder w) = CHR ''/''"
      and b: "base_name w = name" and e: "file_type w = ext"
      by (auto simp: MultiFrameThread_init_def init_folder_def split: if_splits)
    from f have "butlast (folder w) @ ''/'' = folder w"
      using append_butlast_last_id [of "folder w"] by simp
    then have "folder w @ name = butlast (folder w) @ ''/'' @ name"
      by (metis append.assoc)
    with i f b e show ?thesis by (simp add: set_path_def)
  qed
  then show ?thesis
    by (auto simp: MultiFrameThread_init_def init_folder_def)
qed

theorem init_folder_separator_witness:
  "MultiFrameThread_init ''out'' ''img'' 5 ''.png'' =
     Inr (GatherThread_init\<lparr>folder := ''out/'', base_name := ''img'', file_type := ''.png'',
                             max_frames := 5\<rparr>) \<and>
   MultiFrameThread_init ''out/'' ''img'' 5 ''.png'' =
     Inr (GatherThread_init\<lparr>folder := ''out/'', base_name := ''img'', file_type := ''.png'',
                             max_frames := 5\<rparr>) \<and>
   MultiFrameThread_init ''out'' ''cube'' 5 ''.envi'' = Inl AttributeError \<and>
   path (set_path (GatherThread_init\<lparr>folder := ''out/'', base_name := ''img'',
       file_type := ''.png'', max_frames := 5, capt_time := 1 / 16\<rparr>)) = ''out/img62.png''"
  using init_folder_separator [of "''out''" "''img''" 5 "''.png''" "''out/''"
      "GatherThread_init\<lparr>folder := ''out/'', base_name := ''img'', file_type := ''.png'',
                             max_frames := 5\<rparr>" "1 / 16"]
    init_folder_separator [of "''out/''" "''img''" 5 "''.png''" "''out/''"
      "GatherThread_init\<lparr>folder := ''out/'', base_name := ''img'', file_type := ''.png'',
                             max_frames := 5\<rparr>" "1 / 16"]
    init_folder_separator [of "''out''" "''cube''" 5 "''.envi''" "''out/''"
      "GatherThread_init" "1 / 16"]
    time_str_tie [of "GatherThread_init\<lparr>folder := ''out/'', base_name := ''img'',
       file_type := ''.png'', max_frames := 5, capt_time := 1 / 16\<rparr>"]
  by (simp add: set_path_def init_folder_def)

end
